theory Spec2Isabelle
  imports Main "HOL-Library.Sublist"
begin

section \<open>Python string primitives used by the components\<close>

text \<open>
  A Python \<open>str\<close> is modelled as a \<open>string\<close>: a list of characters, each standing for the
  code point of the same number (0 to 255). The character classes below are Python's on
  that range: \<open>str.strip()\<close> and the regular expression class \<open>\s\<close> both use the
  Unicode white-space test, which holds of the code points 9 to 13, 28 to 32, 133 and
  160; \<open>\d\<close> holds of the ten decimal digits only.
\<close>

definition isspace :: "char \<Rightarrow> bool" where
  "isspace c = (let n = (of_char c :: nat) in
     (9 \<le> n \<and> n \<le> 13) \<or> (28 \<le> n \<and> n \<le> 32) \<or> n = 133 \<or> n = 160)"

definition isdigit :: "char \<Rightarrow> bool" where
  "isdigit c = (let n = (of_char c :: nat) in 48 \<le> n \<and> n \<le> 57)"

definition isupper :: "char \<Rightarrow> bool" where
  "isupper c = (let n = (of_char c :: nat) in 65 \<le> n \<and> n \<le> 90)"

definition islower :: "char \<Rightarrow> bool" where
  "islower c = (let n = (of_char c :: nat) in 97 \<le> n \<and> n \<le> 122)"

definition newline :: char where
  "newline = CHR 0x0A"

definition colon :: char where
  "colon = CHR '':''"

definition space :: char where
  "space = CHR '' ''"

text \<open>\<open>s.strip()\<close>: white space removed at both ends.\<close>

definition strip :: "string \<Rightarrow> string" where
  "strip s = rev (dropWhile isspace (rev (dropWhile isspace s)))"

text \<open>
  \<open>find_sep sep s\<close> cuts \<open>s\<close> at the leftmost occurrence of \<open>sep\<close>: the text before it
  and the text after it.
\<close>

fun find_sep :: "string \<Rightarrow> string \<Rightarrow> (string \<times> string) option" where
  "find_sep sep [] = (if sep = [] then Some ([], []) else None)"
| "find_sep sep (c # cs) =
     (if prefix sep (c # cs) then Some ([], drop (length sep) (c # cs))
      else (case find_sep sep cs of
              None \<Rightarrow> None
            | Some (a, b) \<Rightarrow> Some (c # a, b)))"

lemma find_sep_Some: "find_sep sep s = Some (a, b) \<Longrightarrow> s = a @ sep @ b"
proof (induction s arbitrary: a)
  case Nil
  then show ?case by (simp split: if_splits)
next
  case (Cons c cs)
  show ?case
  proof (cases "prefix sep (c # cs)")
    case True
    with Cons.prems have "a = []" "b = drop (length sep) (c # cs)" by simp_all
    moreover from True have "c # cs = sep @ drop (length sep) (c # cs)"
      by (metis append_eq_conv_conj prefix_def)
    ultimately show ?thesis by simp
  next
    case False
    with Cons.prems obtain a' where "find_sep sep cs = Some (a', b)" "a = c # a'"
      by (auto split: option.splits)
    with Cons.IH show ?thesis by simp
  qed
qed

text \<open>
  \<open>s.split(sep)\<close> for a non-empty separator: the pieces between the non-overlapping
  occurrences of \<open>sep\<close>, found from the left. (Python raises ValueError for an empty
  separator; the components only pass the literals \<open>'\n'\<close>, \<open>'```json'\<close> and
  \<open>'```'\<close>, and the model returns \<open>[s]\<close> there.)
\<close>

function split_sep :: "string \<Rightarrow> string \<Rightarrow> string list" where
  "split_sep sep s =
     (if sep = [] then [s]
      else (case find_sep sep s of
              None \<Rightarrow> [s]
            | Some (a, b) \<Rightarrow> a # split_sep sep b))"
  by pat_completeness auto
termination
proof (relation "measure (\<lambda>(sep, s). length s)")
  show "wf (measure (\<lambda>(sep, s). length s))" by simp
next
  fix sep s :: string and x2 a b
  assume "sep \<noteq> []" "find_sep sep s = Some x2" "(a, b) = x2"
  then have "s = a @ sep @ b" by (simp add: find_sep_Some)
  with \<open>sep \<noteq> []\<close> have "length b < length s"
    by (metis add_diff_cancel_right' length_append length_greater_0_conv
        trans_less_add1 zero_less_diff add.commute)
  then show "((sep, b), (sep, s)) \<in> measure (\<lambda>(sep, s). length s)" by simp
qed

declare split_sep.simps [simp del]

text \<open>\<open>sep.join(xs)\<close>.\<close>

fun join :: "string \<Rightarrow> string list \<Rightarrow> string" where
  "join sep [] = []"
| "join sep [x] = x"
| "join sep (x # y # ys) = x @ sep @ join sep (y # ys)"

text \<open>\<open>sub in s\<close> for strings.\<close>

definition contains :: "string \<Rightarrow> string \<Rightarrow> bool" where
  "contains sub s = (find_sep sub s \<noteq> None)"

section \<open>The regular expressions of the transcript parser\<close>

text \<open>
  \<open>\s\<close> at the head of \<open>s\<close>: the text after it.
\<close>

definition match_space :: "string \<Rightarrow> string option" where
  "match_space s = (case s of [] \<Rightarrow> None | w # r \<Rightarrow> if isspace w then Some r else None)"

text \<open>\<open>:\d{2}\<close> at the head of \<open>s\<close>: the text after it.\<close>

definition match_colon_2d :: "string \<Rightarrow> string option" where
  "match_colon_2d s =
     (case s of
        c # d1 # d2 # r \<Rightarrow> if c = colon \<and> isdigit d1 \<and> isdigit d2 then Some r else None
      | _ \<Rightarrow> None)"

text \<open>
  \<open>:\d{2}(:\d{2})?\s\<close> at the head of \<open>s\<close>. The optional group is greedy: it is tried
  first, and given up when the white space does not follow it.
\<close>

definition match_ts_tail :: "string \<Rightarrow> string option" where
  "match_ts_tail s =
     (case match_colon_2d s of
        None \<Rightarrow> None
      | Some r \<Rightarrow>
          (case match_colon_2d r of
             None \<Rightarrow> match_space r
           | Some r' \<Rightarrow>
               (case match_space r' of
                  Some r'' \<Rightarrow> Some r''
                | None \<Rightarrow> match_space r)))"

text \<open>
  \<open>\d{1,2}:\d{2}(:\d{2})?\s\<close> at the head of \<open>s\<close>: the text after the match. Two
  digits are tried first, then one.
\<close>

definition match_timestamp :: "string \<Rightarrow> string option" where
  "match_timestamp s =
     (case s of
        [] \<Rightarrow> None
      | d # r \<Rightarrow>
          if isdigit d then
            (case r of
               [] \<Rightarrow> None
             | d' # r' \<Rightarrow>
                 if isdigit d' then
                   (case match_ts_tail r' of
                      Some x \<Rightarrow> Some x
                    | None \<Rightarrow> match_ts_tail r)
                 else match_ts_tail r)
          else None)"

text \<open>
  \<open>timestamp_pattern.sub('', line)\<close> with \<open>timestamp_pattern = ^\d{1,2}:\d{2}(:\d{2})?\s\<close>:
  the pattern is anchored at the start of the text, so at most the leading match is
  removed.
\<close>

definition sub_leading_timestamp :: "string \<Rightarrow> string" where
  "sub_leading_timestamp s = (case match_timestamp s of None \<Rightarrow> s | Some r \<Rightarrow> r)"

text \<open>
  \<open>(.+)$\<close> at the head of \<open>r\<close>: \<open>.\<close> is any character but the newline, and \<open>$\<close>
  holds at the end of the text or before a newline that ends it.
\<close>

definition match_dots_end :: "string \<Rightarrow> string option" where
  "match_dots_end r =
     (let g = takeWhile (\<lambda>c. c \<noteq> newline) r;
          e = dropWhile (\<lambda>c. c \<noteq> newline) r
      in if g \<noteq> [] \<and> (e = [] \<or> e = [newline]) then Some g else None)"

text \<open>
  \<open>\s*(.+)$\<close> with \<open>\s*\<close> taking \<open>k\<close> characters, then fewer: the second group.
\<close>

fun match_ws_dots_end :: "nat \<Rightarrow> string \<Rightarrow> string option" where
  "match_ws_dots_end 0 r = match_dots_end r"
| "match_ws_dots_end (Suc k) r =
     (case match_dots_end (drop (Suc k) r) of
        Some g \<Rightarrow> Some g
      | None \<Rightarrow> match_ws_dots_end k r)"

definition name_char :: "char \<Rightarrow> bool" where
  "name_char c = (islower c \<or> isupper c \<or> isspace c)"

text \<open>
  \<open>speaker_pattern.match(line)\<close> with
  \<open>speaker_pattern = ^([A-Z][a-zA-Z\s]+):\s*(.+)$\<close>: the two groups. The first group
  is the longest run of name characters after the capital; a shorter run is never
  followed by the colon.
\<close>

definition speaker_match :: "string \<Rightarrow> (string \<times> string) option" where
  "speaker_match s =
     (case s of
        [] \<Rightarrow> None
      | c # cs \<Rightarrow>
          if isupper c then
            (let name = takeWhile name_char cs; rest = dropWhile name_char cs in
             if name = [] then None
             else (case rest of
                     [] \<Rightarrow> None
                   | d # after \<Rightarrow>
                       if d = colon then
                         (case match_ws_dots_end (length (takeWhile isspace after)) after of
                            None \<Rightarrow> None
                          | Some g2 \<Rightarrow> Some (c # name, g2))
                       else None))
          else None)"

section \<open>The transcript parser\<close>

record turn =
  speaker :: string
  turn_text :: string

record pstate =
  parsed :: "turn list"
  current_speaker :: "string option"
  current_text :: "string list"

text \<open>The truth value of \<open>current_speaker\<close>: neither \<open>None\<close> nor the empty string.\<close>

definition speaker_active :: "pstate \<Rightarrow> bool" where
  "speaker_active st =
     (case current_speaker st of None \<Rightarrow> False | Some s \<Rightarrow> s \<noteq> [])"

text \<open>
  \<open>if current_speaker and current_text: parsed.append({...})\<close>, before a new speaker
  and after the last line.
\<close>

definition flush :: "pstate \<Rightarrow> turn list" where
  "flush st =
     (case current_speaker st of
        None \<Rightarrow> parsed st
      | Some s \<Rightarrow>
          if s \<noteq> [] \<and> current_text st \<noteq> []
          then parsed st @ [\<lparr>speaker = s, turn_text = join [space] (current_text st)\<rparr>]
          else parsed st)"

text \<open>\<open>parsed[-1]["text"] += " " + line\<close>, for a non-empty list.\<close>

definition append_to_last :: "turn list \<Rightarrow> string \<Rightarrow> turn list" where
  "append_to_last ps line =
     butlast ps @ [(last ps)\<lparr>turn_text := turn_text (last ps) @ [space] @ line\<rparr>]"

text \<open>
  The body of the loop after the blank lines are skipped and the leading timestamp
  is removed.
\<close>

definition handle_line :: "pstate \<Rightarrow> string \<Rightarrow> pstate" where
  "handle_line st line =
     (case speaker_match line of
        Some (g1, g2) \<Rightarrow>
          \<lparr>parsed = flush st, current_speaker = Some (strip g1), current_text = [strip g2]\<rparr>
      | None \<Rightarrow>
          if speaker_active st then st\<lparr>current_text := current_text st @ [line]\<rparr>
          else if parsed st \<noteq> [] then st\<lparr>parsed := append_to_last (parsed st) line\<rparr>
          else st\<lparr>parsed := [\<lparr>speaker = ''Unknown'', turn_text = line\<rparr>]\<rparr>)"

text \<open>The body of \<open>for line in lines\<close>.\<close>

definition parse_line :: "pstate \<Rightarrow> string \<Rightarrow> pstate" where
  "parse_line st raw =
     (let line = strip raw in
      if line = [] then st
      else (case match_timestamp line of
              Some r \<Rightarrow> handle_line st (strip (sub_leading_timestamp line))
            | None \<Rightarrow> handle_line st line))"

definition init_state :: pstate where
  "init_state = \<lparr>parsed = [], current_speaker = None, current_text = []\<rparr>"

definition parse_transcript :: "string \<Rightarrow> turn list" where
  "parse_transcript raw_text =
     (if raw_text = [] then []
      else flush (foldl parse_line init_state (split_sep [newline] raw_text)))"

section \<open>Cleaning a transcript\<close>

text \<open>
  \<open>re.sub(r'\d{1,2}:\d{2}(:\d{2})?\s', '', s)\<close>: one scan from the left; where the
  pattern matches, the match is dropped and the scan goes on after it; elsewhere the
  character is kept.
\<close>

lemma match_space_length: "match_space s = Some r \<Longrightarrow> length r < length s"
  by (auto simp: match_space_def split: list.splits if_splits)

lemma match_colon_2d_length: "match_colon_2d s = Some r \<Longrightarrow> length r < length s"
  by (auto simp: match_colon_2d_def split: list.splits if_splits)

lemma match_ts_tail_length: "match_ts_tail s = Some r \<Longrightarrow> length r < length s"
  by (fastforce simp: match_ts_tail_def split: option.splits
      dest: match_space_length match_colon_2d_length)

lemma match_timestamp_length: "match_timestamp s = Some r \<Longrightarrow> length r < length s"
  by (fastforce simp: match_timestamp_def split: list.splits if_splits option.splits
      dest: match_ts_tail_length)

function sub_timestamps :: "string \<Rightarrow> string" where
  "sub_timestamps [] = []"
| "sub_timestamps (c # cs) =
     (case match_timestamp (c # cs) of
        Some r \<Rightarrow> sub_timestamps r
      | None \<Rightarrow> c # sub_timestamps cs)"
  by pat_completeness auto
termination
  by (relation "measure length") (auto dest: match_timestamp_length)

text \<open>\<open>re.sub(r'\s+', ' ', s)\<close>: every maximal run of white space becomes one space.\<close>

function sub_spaces :: "string \<Rightarrow> string" where
  "sub_spaces [] = []"
| "sub_spaces (c # cs) =
     (if isspace c then space # sub_spaces (dropWhile isspace cs)
      else c # sub_spaces cs)"
  by pat_completeness auto
termination
  by (relation "measure length") (auto simp: less_Suc_eq_le length_dropWhile_le)

text \<open>\<open>s.replace('\f', ' ')\<close>.\<close>

definition replace_formfeed :: "string \<Rightarrow> string" where
  "replace_formfeed s = map (\<lambda>c. if c = CHR 0x0C then space else c) s"

definition clean_transcript :: "string \<Rightarrow> string" where
  "clean_transcript raw_text =
     (if raw_text = [] then []
      else strip (replace_formfeed (sub_spaces (sub_timestamps raw_text))))"

section \<open>JSON values and the decoder of the standard library\<close>

text \<open>
  The values \<open>json.loads\<close> returns: \<open>None\<close>, a bool, an int, a float (kept as it is
  written in the document), a str, a list, or a dict. A dict is a list of pairs with
  distinct keys, in the order the keys were first inserted.
\<close>

datatype json =
    JNull
  | JBool bool
  | JInt int
  | JFloat string
  | JString string
  | JArray "json list"
  | JObject "(string \<times> json) list"

text \<open>\<open>d[k] = v\<close>: a key that is present keeps its place and takes the new value.\<close>

fun dict_set :: "('k \<times> 'v) list \<Rightarrow> 'k \<Rightarrow> 'v \<Rightarrow> ('k \<times> 'v) list" where
  "dict_set [] k v = [(k, v)]"
| "dict_set ((k', v') # d) k v =
     (if k' = k then (k, v) # d else (k', v') # dict_set d k v)"

text \<open>\<open>dict(pairs)\<close>.\<close>

definition py_dict :: "('k \<times> 'v) list \<Rightarrow> ('k \<times> 'v) list" where
  "py_dict pairs = foldl (\<lambda>d (k, v). dict_set d k v) [] pairs"

text \<open>\<open>k in d\<close> and \<open>d.get(k, default)\<close>.\<close>

definition key_in :: "'k \<Rightarrow> ('k \<times> 'v) list \<Rightarrow> bool" where
  "key_in k d = (k \<in> set (map fst d))"

definition dict_get :: "('k \<times> 'v) list \<Rightarrow> 'k \<Rightarrow> 'v \<Rightarrow> 'v" where
  "dict_get d k dflt = (case map_of d k of None \<Rightarrow> dflt | Some v \<Rightarrow> v)"

text \<open>
  The decoder below follows the scanner of Python's \<open>json\<close> package: white space is
  space, tab, newline and carriage return; a string ends at the next unescaped quote,
  and a raw control character inside it is an error; the literals \<open>NaN\<close>, \<open>Infinity\<close>
  and \<open>-Infinity\<close> are accepted; a number without fraction and exponent is an int.
  An escape \<open>\uXXXX\<close> of a code point above 255 has no character in this model, and
  the decoder of the model gives no value for a document that holds one.
\<close>

definition dquote :: char where
  "dquote = CHR 0x22"

definition backslash :: char where
  "backslash = CHR 0x5C"

definition json_ws :: "char \<Rightarrow> bool" where
  "json_ws c = (c = CHR '' '' \<or> c = CHR 0x09 \<or> c = CHR 0x0A \<or> c = CHR 0x0D)"

definition skip_ws :: "string \<Rightarrow> string" where
  "skip_ws s = dropWhile json_ws s"

definition hex_digit :: "char \<Rightarrow> nat option" where
  "hex_digit c = (let n = (of_char c :: nat) in
     if 48 \<le> n \<and> n \<le> 57 then Some (n - 48)
     else if 65 \<le> n \<and> n \<le> 70 then Some (n - 55)
     else if 97 \<le> n \<and> n \<le> 102 then Some (n - 87)
     else None)"

definition decode_uXXXX :: "char \<Rightarrow> char \<Rightarrow> char \<Rightarrow> char \<Rightarrow> char option" where
  "decode_uXXXX h1 h2 h3 h4 =
     (case (hex_digit h1, hex_digit h2, hex_digit h3, hex_digit h4) of
        (Some a, Some b, Some c, Some d) \<Rightarrow>
          (let n = ((a * 16 + b) * 16 + c) * 16 + d
           in if n < 256 then Some (char_of n) else None)
      | _ \<Rightarrow> None)"

definition decode_escape :: "char \<Rightarrow> char option" where
  "decode_escape e =
     (if e = dquote then Some dquote
      else if e = backslash then Some backslash
      else if e = CHR ''/'' then Some (CHR ''/'')
      else if e = CHR ''b'' then Some (CHR 0x08)
      else if e = CHR ''f'' then Some (CHR 0x0C)
      else if e = CHR ''n'' then Some (CHR 0x0A)
      else if e = CHR ''r'' then Some (CHR 0x0D)
      else if e = CHR ''t'' then Some (CHR 0x09)
      else None)"

text \<open>The text after an opening quote: the decoded string and what follows its closing quote.\<close>

fun scanstring :: "string \<Rightarrow> (string \<times> string) option" where
  "scanstring [] = None"
| "scanstring (c # cs) =
     (if c = dquote then Some ([], cs)
      else if c = backslash then
        (case cs of
           [] \<Rightarrow> None
         | e # r \<Rightarrow>
             if e = CHR ''u'' then
               (case r of
                  h1 # h2 # h3 # h4 # r' \<Rightarrow>
                    (case decode_uXXXX h1 h2 h3 h4 of
                       None \<Rightarrow> None
                     | Some ch \<Rightarrow>
                         (case scanstring r' of
                            None \<Rightarrow> None
                          | Some (str, t) \<Rightarrow> Some (ch # str, t)))
                | _ \<Rightarrow> None)
             else
               (case decode_escape e of
                  None \<Rightarrow> None
                | Some ch \<Rightarrow>
                    (case scanstring r of
                       None \<Rightarrow> None
                     | Some (str, t) \<Rightarrow> Some (ch # str, t))))
      else if (of_char c :: nat) < 32 then None
      else (case scanstring cs of
              None \<Rightarrow> None
            | Some (str, t) \<Rightarrow> Some (c # str, t)))"

text \<open>\<open>int(digits)\<close> for a run of decimal digits.\<close>

definition int_of_digits :: "string \<Rightarrow> int" where
  "int_of_digits ds = foldl (\<lambda>a c. a * 10 + (int (of_char c) - 48)) 0 ds"

text \<open>The exponent part \<open>[eE][-+]?\d+\<close>, if it is there: the part and the rest.\<close>

definition scan_exponent :: "string \<Rightarrow> string \<times> string" where
  "scan_exponent s =
     (case s of
        [] \<Rightarrow> ([], s)
      | e # r \<Rightarrow>
          if e = CHR ''e'' \<or> e = CHR ''E'' then
            (let sg = (case r of
                         [] \<Rightarrow> []
                       | g # _ \<Rightarrow> if g = CHR ''-'' \<or> g = CHR ''+'' then [g] else []);
                 r1 = drop (length sg) r;
                 ds = takeWhile isdigit r1
             in if ds = [] then ([], s) else (e # sg @ ds, dropWhile isdigit r1))
          else ([], s))"

text \<open>The fraction part \<open>\.\d+\<close>, if it is there.\<close>

definition scan_fraction :: "string \<Rightarrow> string \<times> string" where
  "scan_fraction s =
     (case s of
        p # f # r \<Rightarrow>
          if p = CHR ''.'' \<and> isdigit f
          then (p # f # takeWhile isdigit r, dropWhile isdigit r)
          else ([], s)
      | _ \<Rightarrow> ([], s))"

definition scan_number :: "string \<Rightarrow> (json \<times> string) option" where
  "scan_number s =
     (let neg = (case s of [] \<Rightarrow> False | c # _ \<Rightarrow> c = CHR ''-'');
          s1 = (if neg then tl s else s)
      in case s1 of
           [] \<Rightarrow> None
         | d # r \<Rightarrow>
             if \<not> isdigit d then None
             else
               (let ip = (if d = CHR ''0'' then [d] else d # takeWhile isdigit r);
                    s2 = (if d = CHR ''0'' then r else dropWhile isdigit r);
                    (frac, s3) = scan_fraction s2;
                    (ex, s4) = scan_exponent s3
                in if frac = [] \<and> ex = []
                   then Some (JInt (if neg then - int_of_digits ip else int_of_digits ip), s4)
                   else Some (JFloat ((if neg then ''-'' else []) @ ip @ frac @ ex), s4)))"

text \<open>
  The recursive scanner. The first argument bounds the number of calls; \<open>json_decode\<close>
  starts it with more than any document needs (each call either reads a character or
  goes from a value to the items of a container).
\<close>

fun scan_once :: "nat \<Rightarrow> string \<Rightarrow> (json \<times> string) option"
  and scan_array :: "nat \<Rightarrow> json list \<Rightarrow> string \<Rightarrow> (json \<times> string) option"
  and scan_object :: "nat \<Rightarrow> (string \<times> json) list \<Rightarrow> string \<Rightarrow> (json \<times> string) option"
  where
  "scan_once 0 s = None"
| "scan_once (Suc n) s =
     (case s of
        [] \<Rightarrow> None
      | c # r \<Rightarrow>
          if c = dquote then
            (case scanstring r of
               None \<Rightarrow> None
             | Some (str, t) \<Rightarrow> Some (JString str, t))
          else if c = CHR ''{'' then
            (case skip_ws r of
               [] \<Rightarrow> None
             | c' # r' \<Rightarrow>
                 if c' = CHR ''}'' then Some (JObject [], r')
                 else if c' = dquote then scan_object n [] r'
                 else None)
          else if c = CHR ''['' then
            (case skip_ws r of
               [] \<Rightarrow> None
             | c' # r' \<Rightarrow>
                 if c' = CHR '']'' then Some (JArray [], r')
                 else scan_array n [] (c' # r'))
          else if prefix ''null'' s then Some (JNull, drop 4 s)
          else if prefix ''true'' s then Some (JBool True, drop 4 s)
          else if prefix ''false'' s then Some (JBool False, drop 5 s)
          else if prefix ''NaN'' s then Some (JFloat ''NaN'', drop 3 s)
          else if prefix ''Infinity'' s then Some (JFloat ''Infinity'', drop 8 s)
          else if prefix ''-Infinity'' s then Some (JFloat ''-Infinity'', drop 9 s)
          else scan_number s)"
| "scan_array 0 vs s = None"
| "scan_array (Suc n) vs s =
     (case scan_once n s of
        None \<Rightarrow> None
      | Some (v, t) \<Rightarrow>
          (case skip_ws t of
             [] \<Rightarrow> None
           | c # r \<Rightarrow>
               if c = CHR '']'' then Some (JArray (vs @ [v]), r)
               else if c = CHR '','' then scan_array n (vs @ [v]) (skip_ws r)
               else None))"
| "scan_object 0 pairs s = None"
| "scan_object (Suc n) pairs s =
     (case scanstring s of
        None \<Rightarrow> None
      | Some (key, t) \<Rightarrow>
          (case skip_ws t of
             [] \<Rightarrow> None
           | c # r \<Rightarrow>
               if c \<noteq> colon then None
               else
                 (case scan_once n (skip_ws r) of
                    None \<Rightarrow> None
                  | Some (v, t') \<Rightarrow>
                      (case skip_ws t' of
                         [] \<Rightarrow> None
                       | c' # r' \<Rightarrow>
                           if c' = CHR ''}'' then Some (JObject (py_dict (pairs @ [(key, v)])), r')
                           else if c' = CHR '','' then
                             (case skip_ws r' of
                                [] \<Rightarrow> None
                              | c'' # r'' \<Rightarrow>
                                  if c'' = dquote then scan_object n (pairs @ [(key, v)]) r''
                                  else None)
                           else None))))"

text \<open>
  The whole document: white space, one value, white space, and nothing more.
\<close>

definition json_decode :: "string \<Rightarrow> json option" where
  "json_decode s =
     (case scan_once (2 * length s + 2) (skip_ws s) of
        None \<Rightarrow> None
      | Some (v, t) \<Rightarrow> if skip_ws t = [] then Some v else None)"

section \<open>The action item extractor\<close>

text \<open>
  What the code raises and catches. A value of \<open>exn\<close> is an instance of Python's
  \<open>Exception\<close>: its class and the text \<open>str(e)\<close>. \<open>JSONDecodeError\<close> is the class the
  first handler names; every class here is caught by \<open>except Exception\<close>. (Signals
  outside \<open>Exception\<close>, such as the interpreter's KeyboardInterrupt, are not errors of a
  call and are not modelled.)
\<close>

datatype exn_class = JSONDecodeError | ValueError | TypeError | IndexError | OtherError

datatype exn = Exn (exn_class: exn_class) (exn_str: string)

text \<open>
  The generation library and the rest of the world outside the component. A response's
  \<open>text\<close> is read by a property that can raise; a model is what \<open>generate_content\<close>
  does on a prompt; the library configures the key and builds the model; the
  environment holds the key or does not; \<open>json.loads\<close> decodes or raises.
\<close>

datatype response = Response (response_text: "exn + string")

datatype model = Model (generate_content: "string \<Rightarrow> exn + response")

record world =
  configure :: "string \<Rightarrow> exn + unit"
  GenerativeModel :: "string \<Rightarrow> exn + model"
  environ :: "string \<Rightarrow> string option"
  json_loads :: "string \<Rightarrow> exn + json"

text \<open>
  \<open>utils/env_loader.py\<close>: \<open>get_env(key, default=None)\<close> raises ValueError when the
  variable is unset and there is no default.
\<close>

definition get_env :: "world \<Rightarrow> string \<Rightarrow> string option \<Rightarrow> exn + string" where
  "get_env w key dflt =
     (case (case environ w key of Some v \<Rightarrow> Some v | None \<Rightarrow> dflt) of
        None \<Rightarrow> Inl (Exn ValueError (''Environment variable '' @ key @ '' is not set''))
      | Some v \<Rightarrow> Inr v)"

definition get_gemini_api_key :: "world \<Rightarrow> exn + string" where
  "get_gemini_api_key w = get_env w ''GEMINI_API_KEY'' None"

definition initialize_gemini :: "world \<Rightarrow> exn + model" where
  "initialize_gemini w =
     (case get_gemini_api_key w of
        Inl e \<Rightarrow> Inl e
      | Inr api_key \<Rightarrow>
          (case configure w api_key of
             Inl e \<Rightarrow> Inl e
           | Inr _ \<Rightarrow> GenerativeModel w ''gemini-2.5-pro''))"

text \<open>The instruction sent to the model, with the transcript inside it.\<close>

definition quoted :: "string \<Rightarrow> string" where
  "quoted s = dquote # s @ [dquote]"

definition prompt :: "string \<Rightarrow> string" where
  "prompt transcript_text = join [newline]
     [''You are a meeting assistant. Analyze the following meeting transcript and extract all action items.'',
      [],
      ''For each action item, identify:'',
      ''1. The task/action to be completed'',
      ''2. The assignee name (who is responsible)'',
      ''3. The priority level (High, Medium, Low) if mentioned, otherwise default to Medium'',
      [],
      ''Return the results as a JSON array with the following structure:'',
      ''['',
      ''  {'' @ quoted ''assignee'' @ '': '' @ quoted ''Name'' @ '', '' @ quoted ''task'' @ '': ''
        @ quoted ''Task description'' @ '', '' @ quoted ''priority'' @ '': ''
        @ quoted ''High/Medium/Low'' @ ''},'',
      ''  ...'',
      '']'',
      [],
      ''If no action items are found, return an empty array [].'',
      [],
      ''Transcript:'',
      transcript_text,
      [],
      ''JSON Response:'']"

text \<open>\<open>xs[i]\<close>: IndexError out of range.\<close>

definition py_index :: "'a list \<Rightarrow> nat \<Rightarrow> exn + 'a" where
  "py_index xs i =
     (if i < length xs then Inr (xs ! i)
      else Inl (Exn IndexError ''list index out of range''))"

definition fence_json :: string where
  "fence_json = ''```json''"

definition fence :: string where
  "fence = ''```''"

text \<open>\<open>s.split(a)[1].split("```")[0].strip()\<close>.\<close>

definition between_fences :: "string \<Rightarrow> string \<Rightarrow> exn + string" where
  "between_fences a s =
     (case py_index (split_sep a s) 1 of
        Inl e \<Rightarrow> Inl e
      | Inr inner \<Rightarrow>
          (case py_index (split_sep fence inner) 0 of
             Inl e \<Rightarrow> Inl e
           | Inr body \<Rightarrow> Inr (strip body)))"

text \<open>
  The \<open>if\<close>/\<open>elif\<close> that looks for the payload in the response: the new value of
  \<open>response_text\<close>.
\<close>

definition unwrap :: "string \<Rightarrow> exn + string" where
  "unwrap s =
     (if contains fence_json s then between_fences fence_json s
      else if contains fence s then between_fences fence s
      else Inr s)"

record action_item =
  assignee :: json
  task :: json
  priority :: json

text \<open>The record appended for a dict \<open>item\<close>.\<close>

definition normalize_item :: "(string \<times> json) list \<Rightarrow> action_item" where
  "normalize_item item =
     \<lparr>assignee = dict_get item ''assignee'' (JString ''Unassigned''),
      task = dict_get item ''task'' (JString []),
      priority = dict_get item ''priority'' (JString ''Medium'')\<rparr>"

text \<open>
  \<open>for item in action_items\<close>: a list gives its elements, a dict its keys, a str its
  characters; the other values are not iterable and the loop raises TypeError.
\<close>

definition not_iterable :: "string \<Rightarrow> exn" where
  "not_iterable ty = Exn TypeError ([CHR 0x27] @ ty @ [CHR 0x27] @ '' object is not iterable'')"

definition py_iter :: "json \<Rightarrow> exn + json list" where
  "py_iter v =
     (case v of
        JArray xs \<Rightarrow> Inr xs
      | JObject d \<Rightarrow> Inr (map (\<lambda>kv. JString (fst kv)) d)
      | JString s \<Rightarrow> Inr (map (\<lambda>c. JString [c]) s)
      | JInt _ \<Rightarrow> Inl (not_iterable ''int'')
      | JFloat _ \<Rightarrow> Inl (not_iterable ''float'')
      | JBool _ \<Rightarrow> Inl (not_iterable ''bool'')
      | JNull \<Rightarrow> Inl (not_iterable ''NoneType''))"

text \<open>
  The loop, with \<open>validated_items\<close> as it grows: an item is kept when
  \<open>isinstance(item, dict) and "task" in item\<close>.
\<close>

fun validate_loop :: "json list \<Rightarrow> action_item list \<Rightarrow> action_item list" where
  "validate_loop [] validated_items = validated_items"
| "validate_loop (item # rest) validated_items =
     validate_loop rest
       (case item of
          JObject d \<Rightarrow>
            if key_in ''task'' d then validated_items @ [normalize_item d]
            else validated_items
        | _ \<Rightarrow> validated_items)"

definition validate :: "json \<Rightarrow> exn + action_item list" where
  "validate action_items =
     (case py_iter action_items of
        Inl e \<Rightarrow> Inl e
      | Inr items \<Rightarrow> Inr (validate_loop items []))"

text \<open>
  How the \<open>try\<close> block ends: it returns the validated items, or it raises; when it
  raises, the handler needs to know whether the local \<open>response_text\<close> was bound, and
  to what.
\<close>

datatype outcome = Returned "action_item list" | Raised exn "string option"

definition try_block :: "world \<Rightarrow> string \<Rightarrow> outcome" where
  "try_block w transcript_text =
     (case initialize_gemini w of
        Inl e \<Rightarrow> Raised e None
      | Inr model \<Rightarrow>
          (case generate_content model (prompt transcript_text) of
             Inl e \<Rightarrow> Raised e None
           | Inr response \<Rightarrow>
               (case response_text response of
                  Inl e \<Rightarrow> Raised e None
                | Inr t \<Rightarrow>
                    (case unwrap (strip t) of
                       Inl e \<Rightarrow> Raised e (Some (strip t))
                     | Inr payload \<Rightarrow>
                         (case json_loads w payload of
                            Inl e \<Rightarrow> Raised e (Some payload)
                          | Inr action_items \<Rightarrow>
                              (case validate action_items of
                                 Inl e \<Rightarrow> Raised e (Some payload)
                               | Inr validated_items \<Rightarrow> Returned validated_items))))))"

text \<open>
  What the user interface is told: \<open>st.error(message)\<close> and \<open>st.code(text)\<close>, in the
  order of the calls.
\<close>

datatype diagnostic = StError string | StCode string

text \<open>
  \<open>extract_action_items\<close>: the items returned and the diagnostics shown. The two
  handlers are tried in the order of the source.
\<close>

definition extract_action_items :: "world \<Rightarrow> string \<Rightarrow> action_item list \<times> diagnostic list" where
  "extract_action_items w transcript_text =
     (if transcript_text = [] then ([], [])
      else (case try_block w transcript_text of
              Returned validated_items \<Rightarrow> (validated_items, [])
            | Raised e bound \<Rightarrow>
                if exn_class e = JSONDecodeError then
                  ([], StError (''Failed to parse Gemini response as JSON: '' @ exn_str e)
                       # (case bound of None \<Rightarrow> [] | Some t \<Rightarrow> [StCode t]))
                else
                  ([], [StError (''Error processing transcript with Gemini: '' @ exn_str e)])))"

definition process_transcript :: "world \<Rightarrow> string \<Rightarrow> action_item list \<times> diagnostic list" where
  "process_transcript w transcript_text = extract_action_items w transcript_text"

text \<open>
  A mocked world for the scenarios: the key is set, the library works, the model
  answers every prompt with the given text, and \<open>json.loads\<close> is the decoder above
  (\<open>msg\<close> stands for the text of the error it raises).
\<close>

definition py_json_loads :: "(string \<Rightarrow> string) \<Rightarrow> string \<Rightarrow> exn + json" where
  "py_json_loads msg s =
     (case json_decode s of
        None \<Rightarrow> Inl (Exn JSONDecodeError (msg s))
      | Some v \<Rightarrow> Inr v)"

definition mocked :: "(string \<Rightarrow> string) \<Rightarrow> string \<Rightarrow> world" where
  "mocked msg answer =
     \<lparr>configure = (\<lambda>_. Inr ()),
      GenerativeModel = (\<lambda>_. Inr (Model (\<lambda>_. Inr (Response (Inr answer))))),
      environ = (\<lambda>k. if k = ''GEMINI_API_KEY'' then Some ''key'' else None),
      json_loads = py_json_loads msg\<rparr>"

section \<open>Invariants of the parser\<close>

text \<open>
  What every turn of a result is to satisfy: a speaker that is not empty and is either
  \<open>Unknown\<close> or starts with a capital letter, and a text that is not empty.
\<close>

definition well_formed_turn :: "turn \<Rightarrow> bool" where
  "well_formed_turn t =
     (speaker t \<noteq> [] \<and> (speaker t = ''Unknown'' \<or> isupper (hd (speaker t))) \<and> turn_text t \<noteq> [])"

text \<open>
  The invariant of the loop: the turns emitted so far are well formed, and a speaker
  that is set has a name that starts with a capital and a first segment of text that
  is not empty.
\<close>

definition state_inv :: "pstate \<Rightarrow> bool" where
  "state_inv st =
     (list_all well_formed_turn (parsed st) \<and>
      (case current_speaker st of
         None \<Rightarrow> True
       | Some s \<Rightarrow> s \<noteq> [] \<and> isupper (hd s) \<and> current_text st \<noteq> [] \<and> hd (current_text st) \<noteq> []))"

section \<open>The scenarios of the specification\<close>

definition apostrophe :: char where
  "apostrophe = CHR 0x27"

text \<open>The three lines of the parser scenario.\<close>

definition budget_transcript :: string where
  "budget_transcript =
     ''00:01 Alice: Let'' @ [apostrophe] @ ''s discuss the budget.'' @ [newline]
     @ ''We need more funding.'' @ [newline]
     @ ''00:02 Bob: I disagree.''"

text \<open>
  The mocked answer with a labelled fence: the fence line, the array with the one
  object \<open>{"assignee":"Sam","task":"Write report"}\<close>, and the closing fence line.
\<close>

definition sam_response :: string where
  "sam_response =
     ''```json'' @ [newline]
     @ ''[{'' @ quoted ''assignee'' @ '':'' @ quoted ''Sam'' @ '',''
     @ quoted ''task'' @ '':'' @ quoted ''Write report'' @ ''}]'' @ [newline]
     @ ''```''"

text \<open>
  The mocked answer \<open>[{"assignee":"Ann"},{"task":"Review PR","priority":"High"}]\<close>.
\<close>

definition ann_response :: string where
  "ann_response =
     ''[{'' @ quoted ''assignee'' @ '':'' @ quoted ''Ann'' @ ''},{''
     @ quoted ''task'' @ '':'' @ quoted ''Review PR'' @ '',''
     @ quoted ''priority'' @ '':'' @ quoted ''High'' @ ''}]''"

section \<open>The parser on the scenario\<close>

text \<open>
  Claim C2. On the three-line scenario the parser returns exactly two turns, in order:
  Alice with the text of her header line and of the line after it joined by one space,
  then Bob. The timestamps that lead the first and the third line are gone before the
  speaker is looked for, and the second line, which is no header, is joined onto the
  turn of the active speaker.
\<close>

theorem parse_budget_scenario:
  "parse_transcript budget_transcript =
     [\<lparr>speaker = ''Alice'',
       turn_text = ''Let'' @ [apostrophe] @ ''s discuss the budget. We need more funding.''\<rparr>,
      \<lparr>speaker = ''Bob'', turn_text = ''I disagree.''\<rparr>]"
  by code_simp

section \<open>Facts about stripping and the patterns\<close>

lemma isupper_not_space: "isupper c \<Longrightarrow> \<not> isspace c"
  by (auto simp: isupper_def isspace_def Let_def)

lemma isspace_newline: "isspace newline"
  by (simp add: isspace_def newline_def)

lemma strip_ends:
  assumes "strip s \<noteq> []"
  shows "\<not> isspace (hd (strip s))" and "\<not> isspace (last (strip s))"
proof -
  define u where "u = dropWhile isspace s"
  define v where "v = dropWhile isspace (rev u)"
  have sv: "strip s = rev v" by (simp add: strip_def u_def v_def)
  with assms have v: "v \<noteq> []" by simp
  then have "\<not> isspace (hd v)" unfolding v_def by (rule hd_dropWhile)
  with v show "\<not> isspace (last (strip s))" by (simp add: sv last_rev)
  from v have u: "u \<noteq> []" by (auto simp: v_def)
  then have hu: "\<not> isspace (hd u)" unfolding u_def by (rule hd_dropWhile)
  obtain w where "rev u = w @ v"
    by (metis v_def takeWhile_dropWhile_id)
  with v have "last v = last (rev u)" by simp
  also have "\<dots> = hd u" using u by (simp add: last_rev)
  finally show "\<not> isspace (hd (strip s))" using v hu by (simp add: sv hd_rev)
qed

lemma strip_nonempty:
  assumes "s \<noteq> []" "\<not> isspace (last s)"
  shows "strip s \<noteq> []"
proof -
  have "last s \<in> set s" using assms by simp
  then have "dropWhile isspace s \<noteq> []" using assms(2) by (auto simp: dropWhile_eq_Nil_conv)
  moreover have "last (dropWhile isspace s) = last s"
    using assms calculation by (metis last_appendR takeWhile_dropWhile_id)
  ultimately have "dropWhile isspace (rev (dropWhile isspace s)) \<noteq> []"
    using assms(2) by (metis dropWhile_eq_Nil_conv last_in_set set_rev)
  then show ?thesis by (simp add: strip_def)
qed

lemma strip_fixed:
  assumes "\<not> isspace (hd s)" "\<not> isspace (last s)"
  shows "strip s = s"
proof (cases s)
  case Nil
  then show ?thesis by (simp add: strip_def)
next
  case (Cons c cs)
  with assms have 1: "dropWhile isspace s = s" by simp
  from Cons obtain x xs where 2: "rev s = x # xs" by (cases "rev s") auto
  then have "x = last s" by (metis hd_rev list.sel(1))
  with assms 2 have "dropWhile isspace (rev s) = rev s" by (metis dropWhile.simps(2))
  with 1 show ?thesis by (simp add: strip_def)
qed

lemma strip_Nil: "strip [] = []"
  by (simp add: strip_def)

lemma strip_idem: "strip (strip s) = strip s"
proof (cases "strip s = []")
  case True
  then show ?thesis by (simp add: strip_Nil)
next
  case False
  then show ?thesis by (intro strip_fixed strip_ends)
qed

lemma strip_Cons_keep:
  assumes "\<not> isspace c"
  shows "\<exists>r. strip (c # s) = c # r"
proof -
  have "strip (c # s) = rev (dropWhile isspace (rev s @ [c]))"
    using assms by (simp add: strip_def)
  also have "dropWhile isspace (rev s @ [c]) = dropWhile isspace (rev s) @ [c]"
    using assms by (simp add: dropWhile_append)
  finally show ?thesis by simp
qed

lemma match_space_split: "match_space s = Some r \<Longrightarrow> \<exists>w. s = w # r \<and> isspace w"
  by (auto simp: match_space_def split: list.splits if_splits)

lemma match_colon_2d_split: "match_colon_2d s = Some r \<Longrightarrow> \<exists>m. s = m @ r"
  by (auto simp: match_colon_2d_def split: list.splits if_splits)

lemma match_ts_tail_split:
  assumes "match_ts_tail s = Some r"
  shows "\<exists>m w. s = m @ w # r \<and> isspace w"
proof -
  from assms obtain r1 where r1: "match_colon_2d s = Some r1"
    by (auto simp: match_ts_tail_def split: option.splits)
  then obtain m1 where m1: "s = m1 @ r1" by (auto dest: match_colon_2d_split)
  show ?thesis
  proof (cases "match_space r1 = Some r")
    case True
    then obtain w where "r1 = w # r" "isspace w" by (auto dest: match_space_split)
    with m1 show ?thesis by blast
  next
    case False
    with assms r1 obtain r2 where r2: "match_colon_2d r1 = Some r2" "match_space r2 = Some r"
      by (auto simp: match_ts_tail_def split: option.splits)
    then obtain m2 where "r1 = m2 @ r2" by (auto dest: match_colon_2d_split)
    moreover from r2 obtain w where "r2 = w # r" "isspace w" by (auto dest: match_space_split)
    ultimately have "r1 = m2 @ w # r" by simp
    with m1 have "s = (m1 @ m2) @ w # r" by simp
    with \<open>isspace w\<close> show ?thesis by blast
  qed
qed

lemma match_timestamp_split:
  assumes "match_timestamp s = Some r"
  shows "\<exists>m w. s = m @ w # r \<and> isspace w"
proof -
  from assms obtain d t where s: "s = d # t" "isdigit d"
    by (auto simp: match_timestamp_def split: list.splits if_splits)
  show ?thesis
  proof (cases "match_ts_tail t = Some r")
    case True
    then obtain m w where "t = m @ w # r" "isspace w" by (auto dest: match_ts_tail_split)
    with s have "s = (d # m) @ w # r" by simp
    with \<open>isspace w\<close> show ?thesis by blast
  next
    case False
    with assms s obtain d' t' where t: "t = d' # t'" "match_ts_tail t' = Some r"
      by (auto simp: match_timestamp_def split: list.splits if_splits option.splits)
    then obtain m w where "t' = m @ w # r" "isspace w" by (auto dest: match_ts_tail_split)
    with s t have "s = (d # d' # m) @ w # r" by simp
    with \<open>isspace w\<close> show ?thesis by blast
  qed
qed

lemma match_dots_end_split:
  assumes "match_dots_end r = Some g"
  shows "g \<noteq> [] \<and> (r = g \<or> r = g @ [newline])"
proof -
  let ?g = "takeWhile (\<lambda>c. c \<noteq> newline) r" and ?e = "dropWhile (\<lambda>c. c \<noteq> newline) r"
  from assms have g: "g = ?g" "?g \<noteq> []" "?e = [] \<or> ?e = [newline]"
    by (auto simp: match_dots_end_def Let_def split: if_splits)
  have "r = ?g @ ?e" by simp
  with g show ?thesis by (metis append_Nil2)
qed

lemma match_ws_dots_end_split:
  "match_ws_dots_end k r = Some g \<Longrightarrow> g \<noteq> [] \<and> (\<exists>p. r = p @ g \<or> r = p @ g @ [newline])"
proof (induction k)
  case 0
  then show ?case using match_dots_end_split[of r g] by (metis append_Nil match_ws_dots_end.simps(1))
next
  case (Suc k)
  show ?case
  proof (cases "match_dots_end (drop (Suc k) r)")
    case None
    with Suc show ?thesis by simp
  next
    case (Some g')
    with Suc.prems have "g' = g" by simp
    with Some have "g \<noteq> [] \<and> (drop (Suc k) r = g \<or> drop (Suc k) r = g @ [newline])"
      by (auto dest: match_dots_end_split)
    then show ?thesis by (metis append_take_drop_id)
  qed
qed

lemma speaker_match_split:
  assumes "speaker_match s = Some (g1, g2)"
  shows "(\<exists>c name. g1 = c # name \<and> isupper c) \<and> g2 \<noteq> [] \<and> (\<exists>p. s = p @ g2 \<or> s = p @ g2 @ [newline])"
proof -
  from assms obtain c cs where s: "s = c # cs" "isupper c"
    by (auto simp: speaker_match_def split: list.splits if_splits)
  let ?name = "takeWhile name_char cs" and ?rest = "dropWhile name_char cs"
  from assms s obtain d after where r: "?rest = d # after"
    and g: "match_ws_dots_end (length (takeWhile isspace after)) after = Some g2" "g1 = c # ?name"
    by (auto simp: speaker_match_def Let_def split: list.splits if_splits option.splits)
  from g(1) obtain p where "g2 \<noteq> []" "after = p @ g2 \<or> after = p @ g2 @ [newline]"
    by (auto dest: match_ws_dots_end_split)
  moreover have "s = (c # ?name @ [d]) @ after" using s r by (metis append_Cons append_Nil append_assoc takeWhile_dropWhile_id)
  ultimately have "s = ((c # ?name @ [d]) @ p) @ g2 \<or> s = ((c # ?name @ [d]) @ p) @ g2 @ [newline]" by auto
  with \<open>g2 \<noteq> []\<close> g(2) s(2) show ?thesis by blast
qed

lemma speaker_match_stripped:
  assumes "speaker_match s = Some (g1, g2)" "\<not> isspace (last s)"
  shows "strip g1 \<noteq> []" "isupper (hd (strip g1))" "strip g2 \<noteq> []"
proof -
  from assms(1) obtain c name p where g1: "g1 = c # name" "isupper c" and g2: "g2 \<noteq> []"
    and s: "s = p @ g2 \<or> s = p @ g2 @ [newline]"
    by (auto dest!: speaker_match_split)
  from g1 obtain r where "strip g1 = c # r"
    using strip_Cons_keep[of c name] isupper_not_space by auto
  with g1 show "strip g1 \<noteq> []" "isupper (hd (strip g1))" by simp_all
  from s assms(2) isspace_newline have "s = p @ g2" by auto
  with g2 assms(2) have "\<not> isspace (last g2)" by simp
  with g2 show "strip g2 \<noteq> []" by (rule strip_nonempty)
qed

section \<open>The loop keeps its invariant\<close>

lemma join_nonempty: "xs \<noteq> [] \<Longrightarrow> hd xs \<noteq> [] \<Longrightarrow> join sep xs \<noteq> []"
  by (cases "(sep, xs)" rule: join.cases) auto

lemma flush_inv: "state_inv st \<Longrightarrow> list_all well_formed_turn (flush st)"
  by (auto simp: state_inv_def flush_def well_formed_turn_def join_nonempty split: option.splits)

lemma append_to_last_inv:
  assumes "list_all well_formed_turn ps" "ps \<noteq> []"
  shows "list_all well_formed_turn (append_to_last ps line)"
proof -
  from assms have "well_formed_turn (last ps)" "list_all well_formed_turn (butlast ps)"
    by (auto simp: list_all_iff dest: in_set_butlastD)
  then show ?thesis by (simp add: append_to_last_def well_formed_turn_def)
qed

lemma handle_line_inv:
  assumes "state_inv st" "line \<noteq> []" "\<not> isspace (last line)"
  shows "state_inv (handle_line st line)"
proof (cases "speaker_match line")
  case None
  then show ?thesis
    using assms(1,2)
    by (auto simp: handle_line_def state_inv_def speaker_active_def well_formed_turn_def
        append_to_last_inv split: option.splits)
next
  case (Some g)
  obtain g1 g2 where g: "g = (g1, g2)" by (cases g)
  with Some assms(3) have "strip g1 \<noteq> []" "isupper (hd (strip g1))" "strip g2 \<noteq> []"
    by (auto dest: speaker_match_stripped)
  with Some g flush_inv[OF assms(1)] show ?thesis
    by (simp add: handle_line_def state_inv_def)
qed

lemma timestamp_rest_nonblank:
  assumes "match_timestamp line = Some r" "line \<noteq> []" "\<not> isspace (last line)"
  shows "r \<noteq> []" "\<not> isspace (last r)"
proof -
  from assms(1) obtain m w where l: "line = m @ w # r" "isspace w"
    by (auto dest: match_timestamp_split)
  with assms(3) show "r \<noteq> []" by auto
  with l assms(3) show "\<not> isspace (last r)" by simp
qed

text \<open>The line that reaches the speaker test.\<close>

lemma parse_line_eq:
  "parse_line st raw =
     (if strip raw = [] then st
      else handle_line st (strip (sub_leading_timestamp (strip raw))))"
proof (cases "match_timestamp (strip raw)")
  case None
  then show ?thesis by (simp add: parse_line_def Let_def sub_leading_timestamp_def strip_idem)
next
  case (Some r)
  then show ?thesis by (simp add: parse_line_def Let_def sub_leading_timestamp_def)
qed

lemma processed_line_nonblank:
  assumes "strip raw \<noteq> []"
  shows "strip (sub_leading_timestamp (strip raw)) \<noteq> []"
proof (cases "match_timestamp (strip raw)")
  case None
  with assms show ?thesis by (simp add: sub_leading_timestamp_def strip_idem)
next
  case (Some r)
  with assms strip_ends(2)[OF assms] have "r \<noteq> []" "\<not> isspace (last r)"
    by (auto dest: timestamp_rest_nonblank)
  then have "strip r \<noteq> []" by (rule strip_nonempty)
  with Some show ?thesis by (simp add: sub_leading_timestamp_def)
qed

lemma parse_line_inv:
  assumes "state_inv st"
  shows "state_inv (parse_line st raw)"
proof (cases "strip raw = []")
  case True
  with assms show ?thesis by (simp add: parse_line_eq)
next
  case False
  let ?l = "strip (sub_leading_timestamp (strip raw))"
  from False have l: "?l \<noteq> []" by (rule processed_line_nonblank)
  then have "\<not> isspace (last ?l)" by (rule strip_ends)
  with assms l have "state_inv (handle_line st ?l)" by (rule handle_line_inv)
  with False show ?thesis by (simp add: parse_line_eq)
qed

lemma foldl_parse_line_inv:
  "state_inv st \<Longrightarrow> state_inv (foldl parse_line st ls)"
  by (induction ls arbitrary: st) (auto intro: parse_line_inv)

lemma init_state_inv: "state_inv init_state"
  by (simp add: state_inv_def init_state_def)


text \<open>
  Claim C9. For every input text, every turn the parser returns has a speaker that is
  not empty (the name \<open>Unknown\<close>, or a captured name that starts with a capital
  letter) and a text that is not empty; and the same holds of every turn emitted so far
  after any number of lines has been read, so at every point of the construction.
\<close>

theorem parse_turns_well_formed:
  "list_all well_formed_turn (parse_transcript raw) \<and>
   list_all well_formed_turn (parsed (foldl parse_line init_state ls))"
proof
  show "list_all well_formed_turn (parse_transcript raw)"
    by (simp add: parse_transcript_def flush_inv foldl_parse_line_inv init_state_inv)
  have "state_inv (foldl parse_line init_state ls)"
    by (rule foldl_parse_line_inv[OF init_state_inv])
  then show "list_all well_formed_turn (parsed (foldl parse_line init_state ls))"
    by (simp add: state_inv_def)
qed

theorem parse_turns_well_formed_witness:
  "list_all well_formed_turn (parse_transcript budget_transcript) \<and>
   list_all well_formed_turn (parsed (foldl parse_line init_state [''hello'', ''Bob: hi'']))"
  using parse_turns_well_formed[of budget_transcript "[''hello'', ''Bob: hi'']"] by simp

section \<open>When the parser returns nothing\<close>

lemma flush_handle_line: "flush (handle_line st line) \<noteq> []"
proof (cases "speaker_match line")
  case None
  show ?thesis
  proof (cases "speaker_active st")
    case True
    with None have "handle_line st line = st\<lparr>current_text := current_text st @ [line]\<rparr>"
      by (simp add: handle_line_def)
    with True show ?thesis
      by (simp add: flush_def speaker_active_def split: option.splits)
  next
    case False
    with None have "parsed (handle_line st line) \<noteq> []"
      by (simp add: handle_line_def append_to_last_def)
    then show ?thesis
      by (simp add: flush_def split: option.splits)
  qed
next
  case (Some g)
  obtain g1 g2 where g: "g = (g1, g2)" by (cases g)
  with Some obtain c name where "g1 = c # name" "isupper c" by (auto dest!: speaker_match_split)
  then obtain r where "strip g1 = c # r"
    using strip_Cons_keep[of c name] isupper_not_space by auto
  with Some g show ?thesis by (simp add: handle_line_def flush_def)
qed

lemma flush_parse_line_nonblank: "strip raw \<noteq> [] \<Longrightarrow> flush (parse_line st raw) \<noteq> []"
  by (simp add: parse_line_eq flush_handle_line)

lemma flush_parse_line_keeps: "flush st \<noteq> [] \<Longrightarrow> flush (parse_line st raw) \<noteq> []"
  by (cases "strip raw = []") (simp_all add: parse_line_eq flush_handle_line)

lemma flush_foldl_keeps: "flush st \<noteq> [] \<Longrightarrow> flush (foldl parse_line st ls) \<noteq> []"
proof (induction ls arbitrary: st)
  case Nil
  then show ?case by simp
next
  case (Cons l ls)
  from Cons.prems have "flush (parse_line st l) \<noteq> []" by (rule flush_parse_line_keeps)
  then have "flush (foldl parse_line (parse_line st l) ls) \<noteq> []" by (rule Cons.IH)
  then show ?case by simp
qed

lemma flush_foldl:
  "flush (foldl parse_line st ls) = [] \<longleftrightarrow> flush st = [] \<and> (\<forall>l \<in> set ls. strip l = [])"
proof (induction ls arbitrary: st)
  case Nil
  then show ?case by simp
next
  case (Cons l ls)
  show ?case
  proof (cases "strip l = []")
    case True
    then have "parse_line st l = st" by (simp add: parse_line_eq)
    with True Cons.IH[of st] show ?thesis by simp
  next
    case False
    then have "flush (parse_line st l) \<noteq> []" by (rule flush_parse_line_nonblank)
    then have "flush (foldl parse_line (parse_line st l) ls) \<noteq> []" by (rule flush_foldl_keeps)
    with False show ?thesis by simp
  qed
qed

lemma split_sep_Nil: "sep \<noteq> [] \<Longrightarrow> split_sep sep [] = [[]]"
  by (subst split_sep.simps) simp

lemma flush_init: "flush init_state = []"
  by (simp add: flush_def init_state_def)


text \<open>
  Claim C10. The parser returns the empty sequence exactly when no line of the input
  (the pieces between its newlines) is left non-empty by trimming; so it returns the
  empty sequence for the empty text, and at least one turn for every input with a
  line that is not blank.
\<close>

theorem parse_empty_iff_blank:
  "parse_transcript raw = [] \<longleftrightarrow> (\<forall>l \<in> set (split_sep [newline] raw). strip l = [])"
proof (cases "raw = []")
  case True
  then show ?thesis by (simp add: parse_transcript_def split_sep_Nil strip_Nil)
next
  case False
  then show ?thesis by (simp add: parse_transcript_def flush_foldl flush_init)
qed

theorem parse_empty_iff_blank_witness:
  "parse_transcript ('' '' @ [newline] @ ''  '') = [] \<and>
   parse_transcript ('' '' @ [newline] @ ''hello'') \<noteq> []"
proof
  have "\<forall>l \<in> set (split_sep [newline] ('' '' @ [newline] @ ''  '')). strip l = []"
    by code_simp
  then show "parse_transcript ('' '' @ [newline] @ ''  '') = []"
    using parse_empty_iff_blank[of "'' '' @ [newline] @ ''  ''"] by simp
  have "\<not> (\<forall>l \<in> set (split_sep [newline] ('' '' @ [newline] @ ''hello'')). strip l = [])"
    by code_simp
  then show "parse_transcript ('' '' @ [newline] @ ''hello'') \<noteq> []"
    using parse_empty_iff_blank[of "'' '' @ [newline] @ ''hello''"] by simp
qed

end
